theory Spec2Isabelle
  imports Main
begin

section \<open>Data model\<close>

text \<open>
  Python strings are modelled by their UTF-8 encoding (a \<open>char\<close> is one byte), Python
  integers by \<open>int\<close>, a \<open>datetime\<close> by a point on the integer time line, and
  \<open>Optional[T]\<close> by \<open>T option\<close>.  Fields carry a short prefix naming their class,
  because the classes of the source share field names (\<open>id\<close>, \<open>title\<close>, \<open>slug\<close>).
\<close>

type_synonym datetime = int

text \<open>Values of a JSON column.\<close>

datatype json = JNull | JBool bool | JInt int | JStr string
  | JList "json list" | JDict "(string \<times> json) list"

subsection \<open>app/models/constants.py\<close>

definition DRAFT :: int where "DRAFT = 0"
definition PUBLISHED :: int where "PUBLISHED = 1"
definition ARCHIVED :: int where "ARCHIVED = 2"

subsection \<open>app/models/event_model.py\<close>

text \<open>
  \<open>EventCategory.names\<close> is a \<open>Dict[str, str]\<close> read from a JSON column; it is an
  association list here, looked up with \<open>map_of\<close>, and \<open>[]\<close> is the empty dict.
\<close>

record event_category =
  cat_id :: int
  cat_slug :: string
  cat_names :: "(string \<times> string) list"
  cat_is_active :: bool
  cat_sort_order :: int

record event_translation =
  tr_id :: int
  tr_event_id :: int
  tr_locale :: string
  tr_title :: string
  tr_content :: "string option"
  tr_location :: "string option"

record event_attachment =
  att_id :: int
  att_event_id :: int
  att_type :: string
  att_path :: string
  att_title :: "string option"
  att_sort_order :: int

text \<open>
  An \<open>Event\<close> row together with the rows that reference it.  \<open>category_id\<close> is a
  non-null foreign key, so the category of a stored event is always there;
  \<open>ev_translations\<close> and \<open>ev_attachments\<close> hold the child rows in stored order.
\<close>

record event =
  ev_id :: int
  ev_category_id :: int
  ev_status :: int
  ev_starts_at :: "datetime option"
  ev_ends_at :: "datetime option"
  ev_published_at :: "datetime option"
  ev_organizer_info :: "(string \<times> json) list option"
  ev_is_target :: bool
  ev_is_featured :: bool
  ev_created_at :: "datetime option"
  ev_updated_at :: "datetime option"
  ev_deleted_at :: "datetime option"
  ev_category :: event_category
  ev_translations :: "event_translation list"
  ev_attachments :: "event_attachment list"

subsection \<open>app/schemas/event_schema.py\<close>

record category_public =
  cp_slug :: string
  cp_name :: string

record attachment_public =
  ap_type :: string
  ap_title :: string
  ap_path :: string

record event_list_view =
  lv_id :: int
  lv_slug :: string
  lv_title :: string
  lv_category :: category_public
  lv_published_at :: "datetime option"
  lv_organizer_info :: "(string \<times> json) list option"

text \<open>\<open>class EventDetailView(EventListView)\<close>: the record extends the list view.\<close>

record event_detail_view = event_list_view +
  dv_content :: "string option"
  dv_location :: "string option"
  dv_attachments :: "attachment_public list"

subsection \<open>Errors\<close>

text \<open>
  \<open>HTTPException\<close> is raised by the service, \<open>ValidationError\<close> by a pydantic
  constructor given a value outside the declared field type,
  \<open>RequestValidationError\<close> by the router's parameter constraints, and
  \<open>DatabaseError\<close> by the store when it rejects a statement.
\<close>

datatype error =
  HTTPException int string
  | ValidationError
  | RequestValidationError
  | DatabaseError

section \<open>Python primitives used by the service\<close>

text \<open>\<open>str(n)\<close> for an integer: decimal digits, with a leading minus sign.\<close>

definition digit_char :: "nat \<Rightarrow> char" where
  "digit_char d = ''0123456789'' ! d"

fun str_nat :: "nat \<Rightarrow> string" where
  "str_nat n =
     (if n < 10 then [digit_char n]
      else str_nat (n div 10) @ [digit_char (n mod 10)])"

declare str_nat.simps [simp del]

definition str_int :: "int \<Rightarrow> string" where
  "str_int i = (if i < 0 then CHR ''-'' # str_nat (nat (- i)) else str_nat (nat i))"

text \<open>
  \<open>len(s)\<close> counts code points: the bytes of the encoding that are not continuation
  bytes \<open>10xxxxxx\<close>.
\<close>

definition py_len :: "string \<Rightarrow> nat" where
  "py_len s = length (filter (\<lambda>c. \<not> (128 \<le> (of_char c :: nat) \<and> (of_char c :: nat) < 192)) s)"

text \<open>
  \<open>a or b\<close> on \<open>Optional[str]\<close> operands: \<open>None\<close> and the empty string are falsy.
  \<open>or_opt\<close> is the inner \<open>or\<close> of two lookups, \<open>or_default\<close> the outer one whose
  right operand is a plain string.
\<close>

definition or_opt :: "string option \<Rightarrow> string option \<Rightarrow> string option" where
  "or_opt a b = (case a of None \<Rightarrow> b | Some s \<Rightarrow> if s = [] then b else a)"

definition or_default :: "string option \<Rightarrow> string \<Rightarrow> string" where
  "or_default a d = (case a of None \<Rightarrow> d | Some s \<Rightarrow> if s = [] then d else s)"

section \<open>app/services/event_service.py: private helpers\<close>

text \<open>
  \<open>_get_translation\<close>.  \<open>next((t for t in ts if p(t)), d)\<close> is \<open>find p ts\<close> with
  \<open>d\<close> for \<open>None\<close>.  The default \<open>event.translations[0]\<close> of the second \<open>next\<close>
  is evaluated only under the guard that the list is non-empty, so \<open>hd\<close> never
  meets \<open>[]\<close>.
\<close>

definition get_translation :: "event \<Rightarrow> string \<Rightarrow> event_translation option" where
  "get_translation event locale =
     (let translation = find (\<lambda>t. tr_locale t = locale) (ev_translations event)
      in if translation = None \<and> ev_translations event \<noteq> []
         then Some (case find (\<lambda>t. tr_locale t = ''zh-TW'') (ev_translations event) of
                      None \<Rightarrow> hd (ev_translations event)
                    | Some t \<Rightarrow> t)
         else translation)"

text \<open>\<open>_get_json_text\<close>.\<close>

definition get_json_text :: "(string \<times> string) list \<Rightarrow> string \<Rightarrow> string \<Rightarrow> string" where
  "get_json_text data_dict locale dflt =
     (if data_dict = [] then dflt
      else or_default (or_opt (map_of data_dict locale) (map_of data_dict ''zh-TW'')) dflt)"

text \<open>\<open>_transform_to_list_view\<close>.\<close>

definition transform_to_list_view :: "event \<Rightarrow> string \<Rightarrow> event_list_view" where
  "transform_to_list_view event locale =
     (let trans = get_translation event locale;
          title = (case trans of None \<Rightarrow> ''No Translation'' | Some t \<Rightarrow> tr_title t);
          cat_name = get_json_text (cat_names (ev_category event)) locale ''No Category'';
          category_dto = \<lparr>cp_slug = cat_slug (ev_category event), cp_name = cat_name\<rparr>
      in \<lparr>lv_id = ev_id event,
          lv_slug = cat_slug (ev_category event) @ ''-'' @ str_int (ev_id event),
          lv_title = title,
          lv_category = category_dto,
          lv_published_at = ev_published_at event,
          lv_organizer_info = ev_organizer_info event\<rparr>)"

text \<open>
  The constructor of the pydantic model \<open>AttachmentPublic\<close>: its field \<open>title: str\<close>
  does not admit \<open>None\<close>, while \<open>EventAttachment.title\<close> is \<open>Optional[str]\<close>.
\<close>

definition AttachmentPublic :: "string \<Rightarrow> string option \<Rightarrow> string \<Rightarrow> error + attachment_public" where
  "AttachmentPublic type title path =
     (case title of
        None \<Rightarrow> Inl ValidationError
      | Some s \<Rightarrow> Inr \<lparr>ap_type = type, ap_title = s, ap_path = path\<rparr>)"

text \<open>
  The comprehension \<open>[AttachmentPublic(...) for att in event.attachments]\<close>: it builds the
  display forms from left to right and stops at the first constructor that raises.
\<close>

fun attachment_dtos_of :: "event_attachment list \<Rightarrow> error + attachment_public list" where
  "attachment_dtos_of [] = Inr []"
| "attachment_dtos_of (att # atts) =
     (case AttachmentPublic (att_type att) (att_title att) (att_path att) of
        Inl err \<Rightarrow> Inl err
      | Inr dto \<Rightarrow>
          (case attachment_dtos_of atts of
             Inl err \<Rightarrow> Inl err
           | Inr dtos \<Rightarrow> Inr (dto # dtos)))"

text \<open>
  \<open>_transform_to_detail_view\<close>.  \<open>**base_view.model_dump()\<close> passes every field of the
  list view on as a keyword argument of the same name.
\<close>

definition transform_to_detail_view :: "event \<Rightarrow> string \<Rightarrow> error + event_detail_view" where
  "transform_to_detail_view event locale =
     (let base_view = transform_to_list_view event locale;
          trans = get_translation event locale
      in case attachment_dtos_of (ev_attachments event) of
           Inl err \<Rightarrow> Inl err
         | Inr attachment_dtos \<Rightarrow>
             Inr \<lparr>lv_id = lv_id base_view,
                  lv_slug = lv_slug base_view,
                  lv_title = lv_title base_view,
                  lv_category = lv_category base_view,
                  lv_published_at = lv_published_at base_view,
                  lv_organizer_info = lv_organizer_info base_view,
                  dv_content = (case trans of None \<Rightarrow> None | Some t \<Rightarrow> tr_content t),
                  dv_location = (case trans of None \<Rightarrow> None | Some t \<Rightarrow> tr_location t),
                  dv_attachments = attachment_dtos\<rparr>)"

section \<open>app/repositories/event_repository.py\<close>

text \<open>
  The session gives access to the \<open>events\<close> table: its rows in stored order, each with
  its category and its child rows.  The primary key makes the ids of the rows distinct.
\<close>

type_synonym session = "event list"

definition pk_unique :: "session \<Rightarrow> bool" where
  "pk_unique db = distinct (map ev_id db)"

text \<open>
  \<open>ORDER BY published_at DESC\<close>.  The store is MySQL, where \<open>NULL\<close> is the lowest value
  of an ordering, so rows without \<open>published_at\<close> come last.  \<open>published_ge a b\<close> says
  that \<open>a\<close> may stand before \<open>b\<close>.  Rows whose keys are equal keep their stored order
  (SQL leaves their order open).
\<close>

definition published_ge :: "datetime option \<Rightarrow> datetime option \<Rightarrow> bool" where
  "published_ge a b =
     (case b of
        None \<Rightarrow> True
      | Some y \<Rightarrow> (case a of None \<Rightarrow> False | Some x \<Rightarrow> y \<le> x))"

fun insert_desc :: "event \<Rightarrow> event list \<Rightarrow> event list" where
  "insert_desc e [] = [e]"
| "insert_desc e (r # rs) =
     (if published_ge (ev_published_at e) (ev_published_at r) then e # r # rs
      else r # insert_desc e rs)"

definition order_by_published_at_desc :: "event list \<Rightarrow> event list" where
  "order_by_published_at_desc rows = foldr insert_desc rows []"

text \<open>
  \<open>selectinload\<close> of the relationships.  \<open>Event.attachments\<close> is declared with
  \<open>order_by = EventAttachment.sort_order\<close>, so the loaded list is in ascending
  \<open>sort_order\<close>; \<open>category\<close> and \<open>translations\<close> are loaded as stored.
\<close>

definition selectinload :: "event \<Rightarrow> event" where
  "selectinload e = e\<lparr>ev_attachments := sort_key att_sort_order (ev_attachments e)\<rparr>"

text \<open>
  \<open>EventRepository.get_list\<close>.  MySQL rejects a statement whose \<open>OFFSET\<close> or \<open>LIMIT\<close> is
  negative.
\<close>

definition get_list :: "session \<Rightarrow> int \<Rightarrow> int \<Rightarrow> error + event list" where
  "get_list db skip limit =
     (if skip < 0 \<or> limit < 0 then Inl DatabaseError
      else Inr (map selectinload
             (take (nat limit)
               (drop (nat skip)
                 (order_by_published_at_desc
                   (filter (\<lambda>e. ev_status e = PUBLISHED)
                     (filter (\<lambda>e. ev_deleted_at e = None) db)))))))"

text \<open>\<open>EventRepository.get_by_id\<close>: \<open>.first()\<close> is the first row of the result, if any.\<close>

definition get_by_id :: "session \<Rightarrow> int \<Rightarrow> event option" where
  "get_by_id db event_id =
     (case filter (\<lambda>e. ev_status e = PUBLISHED)
             (filter (\<lambda>e. ev_deleted_at e = None)
               (filter (\<lambda>e. ev_id e = event_id) db)) of
        [] \<Rightarrow> None
      | e # _ \<Rightarrow> Some (selectinload e))"

section \<open>app/services/event_service.py: public operations\<close>

definition get_events :: "session \<Rightarrow> string \<Rightarrow> int \<Rightarrow> int \<Rightarrow> error + event_list_view list" where
  "get_events db locale page page_size =
     (let skip = (page - 1) * page_size
      in case get_list db skip page_size of
           Inl err \<Rightarrow> Inl err
         | Inr raw_events \<Rightarrow> Inr (map (\<lambda>event. transform_to_list_view event locale) raw_events))"

definition get_event_detail :: "session \<Rightarrow> int \<Rightarrow> string \<Rightarrow> error + event_detail_view" where
  "get_event_detail db event_id locale =
     (case get_by_id db event_id of
        None \<Rightarrow> Inl (HTTPException 404 ''Event not found'')
      | Some event \<Rightarrow> transform_to_detail_view event locale)"

section \<open>app/routers/event_router.py\<close>

text \<open>
  \<open>read_events\<close>: \<open>locale\<close> has \<open>max_length=10\<close>, \<open>page\<close> has \<open>ge=1\<close>, \<open>size\<close> has
  \<open>ge=1, le=100\<close>; a request that breaks a constraint is rejected before the service
  is called.
\<close>

definition read_events :: "session \<Rightarrow> string \<Rightarrow> int \<Rightarrow> int \<Rightarrow> error + event_list_view list" where
  "read_events db locale page size' =
     (if 10 < py_len locale \<or> page < 1 \<or> size' < 1 \<or> 100 < size'
      then Inl RequestValidationError
      else get_events db locale page size')"

definition read_event_detail :: "session \<Rightarrow> int \<Rightarrow> string \<Rightarrow> error + event_detail_view" where
  "read_event_detail db event_id locale = get_event_detail db event_id locale"

text \<open>
  The result of the statement of \<open>get_list\<close> without \<open>OFFSET\<close> and \<open>LIMIT\<close>: every
  qualifying row, ordered and loaded.  It is the sequence that the pages are cut from.
\<close>

definition published_events :: "session \<Rightarrow> event list" where
  "published_events db =
     map selectinload
       (order_by_published_at_desc
         (filter (\<lambda>e. ev_status e = PUBLISHED)
           (filter (\<lambda>e. ev_deleted_at e = None) db)))"

section \<open>Sample data\<close>

text \<open>
  A small table on which the operations are evaluated: a category, three translations,
  three attachments (one without a title) and six event rows, of which one is a draft
  and one is soft-deleted.
\<close>

definition cat_speech :: event_category where
  "cat_speech =
     \<lparr>cat_id = 1, cat_slug = ''speech'', cat_names = [(''en-US'', ''Speech'')],
      cat_is_active = True, cat_sort_order = 0\<rparr>"

definition tr_en :: event_translation where
  "tr_en =
     \<lparr>tr_id = 1, tr_event_id = 7, tr_locale = ''en-US'', tr_title = ''Open talk'',
      tr_content = Some ''Welcome'', tr_location = Some ''Taipei''\<rparr>"

definition tr_fr :: event_translation where
  "tr_fr =
     \<lparr>tr_id = 2, tr_event_id = 7, tr_locale = ''fr-FR'', tr_title = ''Conference'',
      tr_content = None, tr_location = Some []\<rparr>"

definition tr_zh :: event_translation where
  "tr_zh =
     \<lparr>tr_id = 3, tr_event_id = 10, tr_locale = ''zh-TW'', tr_title = ''Forum'',
      tr_content = Some ''Agenda'', tr_location = None\<rparr>"

definition att_poster :: event_attachment where
  "att_poster =
     \<lparr>att_id = 1, att_event_id = 7, att_type = ''image'', att_path = ''/uploads/poster.png'',
      att_title = Some ''Poster'', att_sort_order = 2\<rparr>"

definition att_slides :: event_attachment where
  "att_slides =
     \<lparr>att_id = 2, att_event_id = 7, att_type = ''file'', att_path = ''/uploads/slides.pdf'',
      att_title = Some ''Slides'', att_sort_order = 1\<rparr>"

definition att_untitled :: event_attachment where
  "att_untitled =
     \<lparr>att_id = 3, att_event_id = 12, att_type = ''link'', att_path = ''https://example.org'',
      att_title = None, att_sort_order = 0\<rparr>"

definition talk_event :: event where
  "talk_event =
     \<lparr>ev_id = 7, ev_category_id = 1, ev_status = PUBLISHED,
      ev_starts_at = None, ev_ends_at = None, ev_published_at = Some 200,
      ev_organizer_info = Some [(''name'', JStr ''Library'')],
      ev_is_target = False, ev_is_featured = False,
      ev_created_at = Some 50, ev_updated_at = Some 50, ev_deleted_at = None,
      ev_category = cat_speech,
      ev_translations = [tr_en, tr_fr],
      ev_attachments = [att_poster, att_slides]\<rparr>"

definition draft_event :: event where
  "draft_event = talk_event\<lparr>ev_id := 8, ev_status := DRAFT, ev_published_at := Some 400\<rparr>"

definition deleted_event :: event where
  "deleted_event = talk_event\<lparr>ev_id := 9, ev_published_at := Some 300, ev_deleted_at := Some 350\<rparr>"

definition forum_event :: event where
  "forum_event =
     talk_event\<lparr>ev_id := 10, ev_published_at := Some 100, ev_translations := [tr_zh],
       ev_attachments := []\<rparr>"

definition unscheduled_event :: event where
  "unscheduled_event =
     talk_event\<lparr>ev_id := 11, ev_published_at := None, ev_translations := [],
       ev_attachments := []\<rparr>"

definition untitled_event :: event where
  "untitled_event =
     talk_event\<lparr>ev_id := 12, ev_published_at := Some 150, ev_translations := [],
       ev_attachments := [att_untitled]\<rparr>"

definition sample_db :: session where
  "sample_db =
     [draft_event, forum_event, unscheduled_event, deleted_event, talk_event, untitled_event]"

section \<open>Auxiliary facts\<close>

lemmas sample_defs = sample_db_def draft_event_def deleted_event_def forum_event_def
  unscheduled_event_def untitled_event_def talk_event_def cat_speech_def tr_en_def tr_fr_def
  tr_zh_def att_poster_def att_slides_def att_untitled_def DRAFT_def PUBLISHED_def

subsection \<open>Translation lookup\<close>

lemma get_translation_cases:
  "get_translation e l =
     (case find (\<lambda>t. tr_locale t = l) (ev_translations e) of
        Some t \<Rightarrow> Some t
      | None \<Rightarrow>
          (case ev_translations e of
             [] \<Rightarrow> None
           | t0 # _ \<Rightarrow>
               (case find (\<lambda>t. tr_locale t = ''zh-TW'') (ev_translations e) of
                  Some t \<Rightarrow> Some t
                | None \<Rightarrow> Some t0)))"
  by (simp add: get_translation_def Let_def split: option.splits list.splits)

lemma find_first_index:
  assumes "find P xs = Some x"
  shows "\<exists>i<length xs. P (xs ! i) \<and> (\<forall>j<i. \<not> P (xs ! j)) \<and> x = xs ! i"
  using assms unfolding find_Some_iff by blast

lemma find_exists:
  assumes "\<exists>x\<in>set xs. P x"
  obtains x where "find P xs = Some x"
  using assms by (cases "find P xs") (auto simp: find_None_iff)

lemma get_translation_Nil: "ev_translations e = [] \<Longrightarrow> get_translation e l = None"
  by (simp add: get_translation_cases)

subsection \<open>Attachment display forms\<close>

lemma attachment_dtos_of_Inr:
  "\<forall>a\<in>set atts. att_title a \<noteq> None \<Longrightarrow> \<exists>dtos. attachment_dtos_of atts = Inr dtos"
  by (induction atts) (auto simp: AttachmentPublic_def)

lemma attachment_dtos_of_Inl:
  "\<exists>a\<in>set atts. att_title a = None \<Longrightarrow> attachment_dtos_of atts = Inl ValidationError"
proof (induction atts)
  case Nil
  then show ?case by simp
next
  case (Cons a atts)
  show ?case
  proof (cases "att_title a")
    case None
    then show ?thesis by (simp add: AttachmentPublic_def)
  next
    case (Some s)
    with Cons.prems have "\<exists>a\<in>set atts. att_title a = None" by auto
    then have "attachment_dtos_of atts = Inl ValidationError" by (rule Cons.IH)
    with Some show ?thesis by (simp add: AttachmentPublic_def)
  qed
qed


lemma transform_to_detail_view_Inr:
  "transform_to_detail_view e l = Inr v \<Longrightarrow>
   \<exists>dtos. attachment_dtos_of (ev_attachments e) = Inr dtos \<and>
     v = \<lparr>lv_id = lv_id (transform_to_list_view e l),
          lv_slug = lv_slug (transform_to_list_view e l),
          lv_title = lv_title (transform_to_list_view e l),
          lv_category = lv_category (transform_to_list_view e l),
          lv_published_at = lv_published_at (transform_to_list_view e l),
          lv_organizer_info = lv_organizer_info (transform_to_list_view e l),
          dv_content = (case get_translation e l of None \<Rightarrow> None | Some t \<Rightarrow> tr_content t),
          dv_location = (case get_translation e l of None \<Rightarrow> None | Some t \<Rightarrow> tr_location t),
          dv_attachments = dtos\<rparr>"
  by (auto simp: transform_to_detail_view_def Let_def split: sum.splits)

lemma transform_to_detail_view_returns:
  "\<forall>a\<in>set (ev_attachments e). att_title a \<noteq> None \<Longrightarrow> \<exists>v. transform_to_detail_view e l = Inr v"
  using attachment_dtos_of_Inr [of "ev_attachments e"]
  by (auto simp: transform_to_detail_view_def Let_def)

lemma transform_to_detail_view_fails:
  "\<exists>a\<in>set (ev_attachments e). att_title a = None \<Longrightarrow>
   transform_to_detail_view e l = Inl ValidationError"
  using attachment_dtos_of_Inl [of "ev_attachments e"]
  by (auto simp: transform_to_detail_view_def Let_def)

subsection \<open>Ordering of the list query\<close>

lemma published_ge_total: "\<not> published_ge a b \<Longrightarrow> published_ge b a"
  by (auto simp: published_ge_def split: option.splits)

lemma published_ge_trans: "published_ge a b \<Longrightarrow> published_ge b c \<Longrightarrow> published_ge a c"
  by (auto simp: published_ge_def split: option.splits)

lemma set_insert_desc: "set (insert_desc e rs) = insert e (set rs)"
  by (induction rs) auto

lemma set_order_by: "set (order_by_published_at_desc rows) = set rows"
  unfolding order_by_published_at_desc_def
  by (induction rows) (simp_all add: set_insert_desc)

lemma sorted_insert_desc:
  "sorted_wrt (\<lambda>a b. published_ge (ev_published_at a) (ev_published_at b)) rs \<Longrightarrow>
   sorted_wrt (\<lambda>a b. published_ge (ev_published_at a) (ev_published_at b)) (insert_desc e rs)"
proof (induction rs)
  case Nil
  then show ?case by simp
next
  case (Cons r rs)
  show ?case
  proof (cases "published_ge (ev_published_at e) (ev_published_at r)")
    case True
    with Cons.prems show ?thesis
      by (auto intro: published_ge_trans)
  next
    case False
    then have "published_ge (ev_published_at r) (ev_published_at e)"
      by (rule published_ge_total)
    with False Cons show ?thesis
      by (auto simp: set_insert_desc)
  qed
qed

lemma sorted_order_by:
  "sorted_wrt (\<lambda>a b. published_ge (ev_published_at a) (ev_published_at b))
     (order_by_published_at_desc rows)"
  unfolding order_by_published_at_desc_def
  by (induction rows) (simp_all add: sorted_insert_desc)

lemma selectinload_fields [simp]:
  "ev_id (selectinload e) = ev_id e"
  "ev_status (selectinload e) = ev_status e"
  "ev_deleted_at (selectinload e) = ev_deleted_at e"
  "ev_published_at (selectinload e) = ev_published_at e"
  "ev_translations (selectinload e) = ev_translations e"
  "ev_category (selectinload e) = ev_category e"
  "ev_organizer_info (selectinload e) = ev_organizer_info e"
  "ev_attachments (selectinload e) = sort_key att_sort_order (ev_attachments e)"
  by (simp_all add: selectinload_def)

lemma sorted_published_events:
  "sorted_wrt (\<lambda>a b. published_ge (ev_published_at a) (ev_published_at b)) (published_events db)"
  unfolding published_events_def
  by (simp add: sorted_wrt_map sorted_order_by)

lemma get_list_Inr_iff:
  "get_list db skip limit = Inr res \<longleftrightarrow>
   0 \<le> skip \<and> 0 \<le> limit \<and> res = take (nat limit) (drop (nat skip) (published_events db))"
  by (auto simp: get_list_def published_events_def take_map drop_map)

lemma published_events_visible:
  assumes "r \<in> set (published_events db)"
  shows "\<exists>e\<in>set db. r = selectinload e \<and> ev_deleted_at e = None \<and> ev_status e = PUBLISHED"
  using assms by (auto simp: published_events_def set_order_by)

lemma get_list_visible:
  assumes "get_list db skip limit = Inr res" and "r \<in> set res"
  shows "\<exists>e\<in>set db. r = selectinload e \<and> ev_deleted_at e = None \<and> ev_status e = PUBLISHED"
proof -
  from assms(1) have "res = take (nat limit) (drop (nat skip) (published_events db))"
    by (simp add: get_list_Inr_iff)
  with assms(2) have "r \<in> set (published_events db)"
    by (auto dest: in_set_takeD in_set_dropD)
  then show ?thesis by (rule published_events_visible)
qed

subsection \<open>Lookup by id\<close>

lemma get_by_id_Some:
  assumes "get_by_id db i = Some r"
  shows "\<exists>e\<in>set db. r = selectinload e \<and> ev_id e = i \<and> ev_deleted_at e = None \<and> ev_status e = PUBLISHED"
proof -
  let ?rows = "filter (\<lambda>e. ev_status e = PUBLISHED)
                 (filter (\<lambda>e. ev_deleted_at e = None) (filter (\<lambda>e. ev_id e = i) db))"
  from assms obtain e rest where rows: "?rows = e # rest" and r: "r = selectinload e"
    by (auto simp: get_by_id_def split: list.splits)
  have "e \<in> set ?rows" unfolding rows by simp
  with r show ?thesis by auto
qed

lemma get_by_id_None_iff:
  "get_by_id db i = None \<longleftrightarrow>
   \<not> (\<exists>e\<in>set db. ev_id e = i \<and> ev_deleted_at e = None \<and> ev_status e = PUBLISHED)"
proof -
  let ?rows = "filter (\<lambda>e. ev_status e = PUBLISHED)
                 (filter (\<lambda>e. ev_deleted_at e = None) (filter (\<lambda>e. ev_id e = i) db))"
  have "get_by_id db i = None \<longleftrightarrow> ?rows = []"
    by (simp add: get_by_id_def split: list.splits)
  also have "\<dots> \<longleftrightarrow> \<not> (\<exists>e\<in>set db. ev_id e = i \<and> ev_deleted_at e = None \<and> ev_status e = PUBLISHED)"
    by (auto simp: filter_empty_conv)
  finally show ?thesis .
qed

lemma pk_unique_filter:
  "pk_unique db \<Longrightarrow> e \<in> set db \<Longrightarrow> filter (\<lambda>x. ev_id x = ev_id e) db = [e]"
  unfolding pk_unique_def
proof (induction db)
  case Nil
  then show ?case by simp
next
  case (Cons x db)
  show ?case
  proof (cases "x = e")
    case True
    from Cons.prems(1) have "ev_id x \<notin> ev_id ` set db" by simp
    then have "\<forall>y\<in>set db. ev_id y \<noteq> ev_id x" by (metis imageI)
    then have "filter (\<lambda>y. ev_id y = ev_id x) db = []" by (simp add: filter_empty_conv)
    with True show ?thesis by simp
  next
    case False
    with Cons.prems have "e \<in> set db" and "ev_id x \<noteq> ev_id e" by auto
    with Cons show ?thesis by simp
  qed
qed

lemma get_by_id_pk:
  assumes "pk_unique db" and "e \<in> set db"
  shows "get_by_id db (ev_id e) =
           (if ev_deleted_at e = None \<and> ev_status e = PUBLISHED then Some (selectinload e) else None)"
  using pk_unique_filter [OF assms] by (simp add: get_by_id_def)

section \<open>Translation resolution\<close>

text \<open>
  C1.  Translation resolution returns the first translation whose locale equals the
  requested one; failing that, on a non-empty list, the first translation with locale
  zh-TW; failing that, the first translation in stored order; and nothing on an empty
  list.  With translations in en-US and fr-FR and a request for zh-TW the en-US
  translation is returned.
\<close>

theorem get_translation_resolution:
  "((\<exists>t\<in>set (ev_translations e). tr_locale t = l) \<longrightarrow>
      (\<exists>i<length (ev_translations e).
          tr_locale (ev_translations e ! i) = l \<and>
          (\<forall>j<i. tr_locale (ev_translations e ! j) \<noteq> l) \<and>
          get_translation e l = Some (ev_translations e ! i))) \<and>
   ((\<forall>t\<in>set (ev_translations e). tr_locale t \<noteq> l) \<and>
    (\<exists>t\<in>set (ev_translations e). tr_locale t = ''zh-TW'') \<longrightarrow>
      (\<exists>i<length (ev_translations e).
          tr_locale (ev_translations e ! i) = ''zh-TW'' \<and>
          (\<forall>j<i. tr_locale (ev_translations e ! j) \<noteq> ''zh-TW'') \<and>
          get_translation e l = Some (ev_translations e ! i))) \<and>
   ((\<forall>t\<in>set (ev_translations e). tr_locale t \<noteq> l \<and> tr_locale t \<noteq> ''zh-TW'') \<and>
    ev_translations e \<noteq> [] \<longrightarrow>
      get_translation e l = Some (ev_translations e ! 0)) \<and>
   (ev_translations e = [] \<longrightarrow> get_translation e l = None) \<and>
   (map tr_locale (ev_translations e) = [''en-US'', ''fr-FR''] \<longrightarrow>
      get_translation e ''zh-TW'' = Some (ev_translations e ! 0) \<and>
      tr_locale (ev_translations e ! 0) = ''en-US'')"
proof (intro conjI impI)
  assume "\<exists>t\<in>set (ev_translations e). tr_locale t = l"
  then obtain t where f: "find (\<lambda>t. tr_locale t = l) (ev_translations e) = Some t"
    by (rule find_exists)
  from find_first_index [OF f] obtain i where
    "i < length (ev_translations e)" "tr_locale (ev_translations e ! i) = l"
    "\<forall>j<i. tr_locale (ev_translations e ! j) \<noteq> l" "t = ev_translations e ! i"
    by blast
  moreover from f have "get_translation e l = Some t"
    by (simp add: get_translation_cases)
  ultimately show "\<exists>i<length (ev_translations e).
          tr_locale (ev_translations e ! i) = l \<and>
          (\<forall>j<i. tr_locale (ev_translations e ! j) \<noteq> l) \<and>
          get_translation e l = Some (ev_translations e ! i)"
    by blast
next
  assume a: "(\<forall>t\<in>set (ev_translations e). tr_locale t \<noteq> l) \<and>
    (\<exists>t\<in>set (ev_translations e). tr_locale t = ''zh-TW'')"
  then have n: "find (\<lambda>t. tr_locale t = l) (ev_translations e) = None"
    by (auto simp: find_None_iff)
  from a have "\<exists>t\<in>set (ev_translations e). tr_locale t = ''zh-TW''" by simp
  then obtain t where z: "find (\<lambda>t. tr_locale t = ''zh-TW'') (ev_translations e) = Some t"
    by (rule find_exists)
  from a have ne: "ev_translations e \<noteq> []" by auto
  from find_first_index [OF z] obtain i where
    "i < length (ev_translations e)" "tr_locale (ev_translations e ! i) = ''zh-TW''"
    "\<forall>j<i. tr_locale (ev_translations e ! j) \<noteq> ''zh-TW''" "t = ev_translations e ! i"
    by blast
  moreover from n z ne have "get_translation e l = Some t"
    by (cases "ev_translations e") (simp_all add: get_translation_cases)
  ultimately show "\<exists>i<length (ev_translations e).
          tr_locale (ev_translations e ! i) = ''zh-TW'' \<and>
          (\<forall>j<i. tr_locale (ev_translations e ! j) \<noteq> ''zh-TW'') \<and>
          get_translation e l = Some (ev_translations e ! i)"
    by blast
next
  assume a: "(\<forall>t\<in>set (ev_translations e). tr_locale t \<noteq> l \<and> tr_locale t \<noteq> ''zh-TW'') \<and>
    ev_translations e \<noteq> []"
  then have "find (\<lambda>t. tr_locale t = l) (ev_translations e) = None"
    and "find (\<lambda>t. tr_locale t = ''zh-TW'') (ev_translations e) = None"
    by (auto simp: find_None_iff)
  with a show "get_translation e l = Some (ev_translations e ! 0)"
    by (cases "ev_translations e") (simp_all add: get_translation_cases)
next
  assume "ev_translations e = []"
  then show "get_translation e l = None"
    by (rule get_translation_Nil)
next
  assume "map tr_locale (ev_translations e) = [''en-US'', ''fr-FR'']"
  then obtain a b where "ev_translations e = [a, b]" "tr_locale a = ''en-US''"
    "tr_locale b = ''fr-FR''"
    by (auto simp: map_eq_Cons_conv)
  then show "get_translation e ''zh-TW'' = Some (ev_translations e ! 0)"
    by (simp add: get_translation_cases)
next
  assume "map tr_locale (ev_translations e) = [''en-US'', ''fr-FR'']"
  then show "tr_locale (ev_translations e ! 0) = ''en-US''"
    by (auto simp: map_eq_Cons_conv)
qed

theorem get_translation_resolution_witness:
  "map tr_locale (ev_translations talk_event) = [''en-US'', ''fr-FR''] \<and>
   get_translation talk_event ''zh-TW'' = Some tr_en \<and>
   ev_translations unscheduled_event = [] \<and>
   get_translation unscheduled_event ''en-US'' = None"
proof -
  have h: "map tr_locale (ev_translations talk_event) = [''en-US'', ''fr-FR'']"
    by (simp add: sample_defs)
  have n: "ev_translations unscheduled_event = []"
    by (simp add: sample_defs)
  have "ev_translations talk_event ! 0 = tr_en"
    by (simp add: talk_event_def)
  with h n get_translation_resolution [of talk_event "''zh-TW''"]
    get_translation_resolution [of unscheduled_event "''en-US''"]
  show ?thesis by simp
qed

section \<open>Localized text\<close>

text \<open>
  C3.  Localized text lookup returns the value stored at the requested locale when it is
  present and non-empty, otherwise the value at zh-TW when that is present and
  non-empty, otherwise the supplied default.  The two lookups of the specification,
  with a missing locale fr-FR, give the default and the zh-TW value.
\<close>

theorem get_json_text_fallback:
  "(\<forall>v. map_of d l = Some v \<and> v \<noteq> [] \<longrightarrow> get_json_text d l dflt = v) \<and>
   (\<forall>w. (map_of d l = None \<or> map_of d l = Some []) \<and> map_of d ''zh-TW'' = Some w \<and> w \<noteq> []
        \<longrightarrow> get_json_text d l dflt = w) \<and>
   ((map_of d l = None \<or> map_of d l = Some []) \<and>
    (map_of d ''zh-TW'' = None \<or> map_of d ''zh-TW'' = Some [])
        \<longrightarrow> get_json_text d l dflt = dflt) \<and>
   get_json_text [(''en-US'', ''Hi'')] ''fr-FR'' ''Unknown'' = ''Unknown'' \<and>
   get_json_text [(''zh-TW'', [CHR 0xE5, CHR 0x97, CHR 0xA8])] ''fr-FR'' ''Unknown''
     = [CHR 0xE5, CHR 0x97, CHR 0xA8]"
  by (cases d) (auto simp: get_json_text_def or_opt_def or_default_def)

theorem get_json_text_fallback_witness:
  "map_of [(''en-US'', ''Hi''), (''zh-TW'', '''')] ''en-US'' = Some ''Hi'' \<and>
   get_json_text [(''en-US'', ''Hi''), (''zh-TW'', '''')] ''en-US'' ''Unknown'' = ''Hi'' \<and>
   get_json_text [(''en-US'', ''Hi''), (''zh-TW'', '''')] ''zh-TW'' ''Unknown'' = ''Unknown''"
proof -
  have a: "map_of [(''en-US'', ''Hi''), (''zh-TW'', '''')] ''en-US'' = Some ''Hi''"
    by simp
  have b: "map_of [(''en-US'', ''Hi''), (''zh-TW'', '''')] ''zh-TW'' = Some []"
    by simp
  from a b get_json_text_fallback [of "[(''en-US'', ''Hi''), (''zh-TW'', '''')]" "''en-US''" "''Unknown''"]
    get_json_text_fallback [of "[(''en-US'', ''Hi''), (''zh-TW'', '''')]" "''zh-TW''" "''Unknown''"]
  show ?thesis by simp
qed

section \<open>The sample table, evaluated\<close>

lemma sample_pk_unique: "pk_unique sample_db"
  by (simp add: pk_unique_def sample_defs)

lemma sample_published:
  "published_events sample_db =
     [selectinload talk_event, selectinload untitled_event,
      selectinload forum_event, selectinload unscheduled_event]"
  by (simp add: published_events_def order_by_published_at_desc_def published_ge_def sample_defs)

lemma pk_unique_inj:
  "pk_unique db \<Longrightarrow> a \<in> set db \<Longrightarrow> b \<in> set db \<Longrightarrow> ev_id a = ev_id b \<Longrightarrow> a = b"
  unfolding pk_unique_def distinct_map by (auto dest: inj_onD)

section \<open>Visibility filter\<close>

text \<open>
  C2.  Every event returned by the list query or by the lookup by id has a null
  deleted_at and status PUBLISHED; an event of the table that is soft-deleted or not
  published is absent from every list result, and the lookup of its id yields nothing.
\<close>

theorem hidden_events_never_returned:
  "(get_list db skip limit = Inr res \<longrightarrow>
      (\<forall>r\<in>set res. ev_deleted_at r = None \<and> ev_status r = PUBLISHED)) \<and>
   (get_by_id db i = Some r' \<longrightarrow> ev_deleted_at r' = None \<and> ev_status r' = PUBLISHED) \<and>
   (pk_unique db \<and> e \<in> set db \<and> (ev_deleted_at e \<noteq> None \<or> ev_status e \<noteq> PUBLISHED) \<longrightarrow>
      get_by_id db (ev_id e) = None \<and>
      (get_list db skip limit = Inr res \<longrightarrow> (\<forall>r\<in>set res. ev_id r \<noteq> ev_id e)))"
proof (intro conjI impI ballI)
  fix r
  assume "get_list db skip limit = Inr res" and "r \<in> set res"
  then obtain x where "r = selectinload x" "ev_deleted_at x = None" "ev_status x = PUBLISHED"
    using get_list_visible by blast
  then show "ev_deleted_at r = None" and "ev_status r = PUBLISHED" by simp_all
next
  assume "get_by_id db i = Some r'"
  then obtain x where "r' = selectinload x" "ev_deleted_at x = None" "ev_status x = PUBLISHED"
    using get_by_id_Some by blast
  then show "ev_deleted_at r' = None" and "ev_status r' = PUBLISHED" by simp_all
next
  assume a: "pk_unique db \<and> e \<in> set db \<and> (ev_deleted_at e \<noteq> None \<or> ev_status e \<noteq> PUBLISHED)"
  then show "get_by_id db (ev_id e) = None"
    by (auto simp: get_by_id_pk)
next
  fix r
  assume a: "pk_unique db \<and> e \<in> set db \<and> (ev_deleted_at e \<noteq> None \<or> ev_status e \<noteq> PUBLISHED)"
    and "get_list db skip limit = Inr res" and "r \<in> set res"
  then obtain x where x: "x \<in> set db" "r = selectinload x" "ev_deleted_at x = None"
    "ev_status x = PUBLISHED"
    using get_list_visible by blast
  show "ev_id r \<noteq> ev_id e"
  proof
    assume "ev_id r = ev_id e"
    with x have "ev_id x = ev_id e" by simp
    with a x(1) have "x = e" by (auto dest: pk_unique_inj)
    with a x show False by auto
  qed
qed

theorem hidden_events_never_returned_witness:
  "pk_unique sample_db \<and> deleted_event \<in> set sample_db \<and>
   ev_deleted_at deleted_event = Some 350 \<and>
   get_by_id sample_db (ev_id deleted_event) = None \<and>
   get_list sample_db 0 10 = Inr (published_events sample_db) \<and>
   published_events sample_db ! 0 \<in> set (published_events sample_db) \<and>
   ev_id (published_events sample_db ! 0) = 7 \<and>
   ev_id deleted_event = 9 \<and>
   ev_deleted_at (published_events sample_db ! 0) = None \<and>
   ev_status (published_events sample_db ! 0) = PUBLISHED"
proof -
  have m: "deleted_event \<in> set sample_db" by (simp add: sample_db_def)
  have d: "ev_deleted_at deleted_event = Some 350" by (simp add: deleted_event_def)
  have g: "get_list sample_db 0 10 = Inr (published_events sample_db)"
    by (simp add: get_list_Inr_iff sample_published)
  have r: "published_events sample_db ! 0 \<in> set (published_events sample_db)"
    by (simp add: sample_published)
  have i: "ev_id (published_events sample_db ! 0) = 7" "ev_id deleted_event = 9"
    by (simp_all add: sample_published talk_event_def deleted_event_def)
  note inst = hidden_events_never_returned [of sample_db 0 10 "published_events sample_db" 0
      undefined deleted_event]
  from inst sample_pk_unique m d have n: "get_by_id sample_db (ev_id deleted_event) = None"
    by simp
  from inst g r have v: "ev_deleted_at (published_events sample_db ! 0) = None"
    "ev_status (published_events sample_db ! 0) = PUBLISHED"
    by blast+
  show ?thesis
    by (intro conjI) (fact sample_pk_unique m d n g r i v)+
qed

section \<open>Paging\<close>

text \<open>
  C4.  For a page number p of at least 1 and a page size s between 1 and 100 the list
  endpoint asks the repository for skip (p - 1) * s and limit s, and answers with the
  list views of that slice of the qualifying sequence: page 1 of size 10 is its first
  ten rows and page 2 of size 10 is rows 11 to 20.
\<close>

theorem read_events_paging:
  "(1 \<le> p \<and> 1 \<le> s \<and> s \<le> 100 \<and> py_len locale \<le> 10 \<longrightarrow>
      get_list db ((p - 1) * s) s =
        Inr (take (nat s) (drop (nat ((p - 1) * s)) (published_events db))) \<and>
      get_events db locale p s =
        Inr (map (\<lambda>e. transform_to_list_view e locale)
              (take (nat s) (drop (nat ((p - 1) * s)) (published_events db)))) \<and>
      read_events db locale p s = get_events db locale p s) \<and>
   (py_len locale \<le> 10 \<longrightarrow>
      read_events db locale 1 10 =
        Inr (map (\<lambda>e. transform_to_list_view e locale) (take 10 (published_events db))) \<and>
      read_events db locale 2 10 =
        Inr (map (\<lambda>e. transform_to_list_view e locale)
              (take 10 (drop 10 (published_events db)))))"
proof -
  have page: "get_list db ((p - 1) * s) s =
        Inr (take (nat s) (drop (nat ((p - 1) * s)) (published_events db))) \<and>
      get_events db locale p s =
        Inr (map (\<lambda>e. transform_to_list_view e locale)
              (take (nat s) (drop (nat ((p - 1) * s)) (published_events db)))) \<and>
      read_events db locale p s = get_events db locale p s"
    if "1 \<le> p" "1 \<le> s" "s \<le> 100" "py_len locale \<le> 10" for p s
  proof -
    from that have "0 \<le> (p - 1) * s" by simp
    with that have g: "get_list db ((p - 1) * s) s =
        Inr (take (nat s) (drop (nat ((p - 1) * s)) (published_events db)))"
      by (simp add: get_list_Inr_iff)
    from g have "get_events db locale p s =
        Inr (map (\<lambda>e. transform_to_list_view e locale)
              (take (nat s) (drop (nat ((p - 1) * s)) (published_events db))))"
      by (simp add: get_events_def Let_def)
    moreover from that have "read_events db locale p s = get_events db locale p s"
      by (simp add: read_events_def)
    ultimately show ?thesis using g by simp
  qed
  from page [of p s] page [of 1 10] page [of 2 10] show ?thesis by simp
qed

theorem read_events_paging_witness:
  "(1::int) \<le> 2 \<and> (2::int) \<le> 100 \<and> py_len ''zh-TW'' \<le> 10 \<and>
   get_list sample_db ((2 - 1) * 2) 2 =
     Inr [selectinload forum_event, selectinload unscheduled_event] \<and>
   read_events sample_db ''zh-TW'' 2 2 =
     Inr [transform_to_list_view (selectinload forum_event) ''zh-TW'',
          transform_to_list_view (selectinload unscheduled_event) ''zh-TW'']"
proof -
  have l: "py_len ''zh-TW'' \<le> 10" by (simp add: py_len_def)
  from l read_events_paging [of 2 2 "''zh-TW''" sample_db]
  show ?thesis by (simp add: sample_published)
qed

section \<open>Ordering of the list\<close>

text \<open>
  C5.  A result of the list query is in descending order of published_at: of two
  adjacent results the earlier one is published at or after the later one.  A null
  published_at counts as the lowest value, so results without a publication time come
  last.
\<close>

theorem get_list_ordered_desc:
  "get_list db skip limit = Inr res \<Longrightarrow> Suc i < length res \<Longrightarrow>
     published_ge (ev_published_at (res ! i)) (ev_published_at (res ! Suc i)) \<and>
     (\<forall>x y. ev_published_at (res ! i) = Some x \<and> ev_published_at (res ! Suc i) = Some y
          \<longrightarrow> y \<le> x) \<and>
     (ev_published_at (res ! i) = None \<longrightarrow> ev_published_at (res ! Suc i) = None)"
proof -
  assume g: "get_list db skip limit = Inr res" and i: "Suc i < length res"
  from g have res: "res = take (nat limit) (drop (nat skip) (published_events db))"
    by (simp add: get_list_Inr_iff)
  have "sorted_wrt (\<lambda>a b. published_ge (ev_published_at a) (ev_published_at b)) res"
    unfolding res by (intro sorted_wrt_take sorted_wrt_drop sorted_published_events)
  with i have "published_ge (ev_published_at (res ! i)) (ev_published_at (res ! Suc i))"
    by (simp add: sorted_wrt_iff_nth_less)
  then show ?thesis
    by (auto simp: published_ge_def split: option.splits)
qed

theorem get_list_ordered_desc_witness:
  "get_list sample_db 0 10 = Inr (published_events sample_db) \<and>
   Suc 2 < length (published_events sample_db) \<and>
   ev_published_at (published_events sample_db ! 2) = Some 100 \<and>
   ev_published_at (published_events sample_db ! Suc 2) = None \<and>
   published_ge (ev_published_at (published_events sample_db ! 2))
     (ev_published_at (published_events sample_db ! Suc 2))"
proof -
  have g: "get_list sample_db 0 10 = Inr (published_events sample_db)"
    by (simp add: get_list_Inr_iff sample_published)
  have n: "Suc 2 < length (published_events sample_db)"
    by (simp add: sample_published)
  have "ev_published_at (published_events sample_db ! 2) = Some 100"
    and "ev_published_at (published_events sample_db ! Suc 2) = None"
    by (simp_all add: sample_published forum_event_def unscheduled_event_def)
  with g n get_list_ordered_desc [OF g n] show ?thesis by simp
qed

section \<open>Detail lookup and its errors\<close>

lemma sample_detail_untitled:
  "get_event_detail sample_db 12 ''zh-TW'' = Inl ValidationError"
  by (simp add: get_event_detail_def get_by_id_def transform_to_detail_view_def
      AttachmentPublic_def Let_def selectinload_def sample_defs)

text \<open>
  C6, as stated, fails: the row with id 12 of the sample table is neither soft-deleted
  nor unpublished, yet the detail operation raises instead of returning a view, because
  its attachment has no title.
\<close>

theorem get_event_detail_raises_counterexample:
  "untitled_event \<in> set sample_db \<and>
   ev_id untitled_event = 12 \<and>
   ev_deleted_at untitled_event = None \<and>
   ev_status untitled_event = PUBLISHED \<and>
   get_by_id sample_db 12 = Some (selectinload untitled_event) \<and>
   get_event_detail sample_db 12 ''zh-TW'' = Inl ValidationError"
proof -
  have "get_by_id sample_db 12 = Some (selectinload untitled_event)"
    by (simp add: get_by_id_def sample_defs)
  moreover have "untitled_event \<in> set sample_db"
    by (simp add: sample_db_def)
  moreover have "ev_id untitled_event = 12" "ev_deleted_at untitled_event = None"
    "ev_status untitled_event = PUBLISHED"
    by (simp_all add: untitled_event_def talk_event_def)
  ultimately show ?thesis
    using sample_detail_untitled by simp
qed

text \<open>
  C6, amended.  For an event id that no row carries, or whose row is soft-deleted or
  not PUBLISHED, the detail operation raises the not-found error 404 with the message
  "Event not found".  For an event id whose row passes the filters and whose attachments
  all have a title, it returns the detail view of that row and does not raise.
\<close>

theorem get_event_detail_not_found_or_view:
  "(\<not> (\<exists>x\<in>set db. ev_id x = i \<and> ev_deleted_at x = None \<and> ev_status x = PUBLISHED) \<longrightarrow>
      get_event_detail db i l = Inl (HTTPException 404 ''Event not found'')) \<and>
   (i \<notin> ev_id ` set db \<longrightarrow>
      get_event_detail db i l = Inl (HTTPException 404 ''Event not found'')) \<and>
   (pk_unique db \<and> e \<in> set db \<and> (ev_deleted_at e \<noteq> None \<or> ev_status e \<noteq> PUBLISHED) \<longrightarrow>
      get_event_detail db (ev_id e) l = Inl (HTTPException 404 ''Event not found'')) \<and>
   (pk_unique db \<and> e \<in> set db \<and> ev_deleted_at e = None \<and> ev_status e = PUBLISHED \<and>
    (\<forall>a\<in>set (ev_attachments e). att_title a \<noteq> None) \<longrightarrow>
      (\<exists>v. get_event_detail db (ev_id e) l = Inr v \<and>
           transform_to_detail_view (selectinload e) l = Inr v)) \<and>
   read_event_detail db i l = get_event_detail db i l"
proof (intro conjI impI)
  assume "\<not> (\<exists>x\<in>set db. ev_id x = i \<and> ev_deleted_at x = None \<and> ev_status x = PUBLISHED)"
  then have "get_by_id db i = None" by (simp add: get_by_id_None_iff)
  then show "get_event_detail db i l = Inl (HTTPException 404 ''Event not found'')"
    by (simp add: get_event_detail_def)
next
  assume "i \<notin> ev_id ` set db"
  then have "\<not> (\<exists>x\<in>set db. ev_id x = i \<and> ev_deleted_at x = None \<and> ev_status x = PUBLISHED)"
    by auto
  then have "get_by_id db i = None" by (simp add: get_by_id_None_iff)
  then show "get_event_detail db i l = Inl (HTTPException 404 ''Event not found'')"
    by (simp add: get_event_detail_def)
next
  assume "pk_unique db \<and> e \<in> set db \<and> (ev_deleted_at e \<noteq> None \<or> ev_status e \<noteq> PUBLISHED)"
  then have "get_by_id db (ev_id e) = None" by (auto simp: get_by_id_pk)
  then show "get_event_detail db (ev_id e) l = Inl (HTTPException 404 ''Event not found'')"
    by (simp add: get_event_detail_def)
next
  assume a: "pk_unique db \<and> e \<in> set db \<and> ev_deleted_at e = None \<and> ev_status e = PUBLISHED \<and>
    (\<forall>a\<in>set (ev_attachments e). att_title a \<noteq> None)"
  then have g: "get_by_id db (ev_id e) = Some (selectinload e)" by (simp add: get_by_id_pk)
  from a have "\<forall>a\<in>set (ev_attachments (selectinload e)). att_title a \<noteq> None" by simp
  then obtain v where "transform_to_detail_view (selectinload e) l = Inr v"
    using transform_to_detail_view_returns by blast
  with g show "\<exists>v. get_event_detail db (ev_id e) l = Inr v \<and>
           transform_to_detail_view (selectinload e) l = Inr v"
    by (simp add: get_event_detail_def)
next
  show "read_event_detail db i l = get_event_detail db i l"
    by (simp add: read_event_detail_def)
qed

theorem get_event_detail_not_found_or_view_witness:
  "pk_unique sample_db \<and> deleted_event \<in> set sample_db \<and> draft_event \<in> set sample_db \<and>
   talk_event \<in> set sample_db \<and>
   get_event_detail sample_db 99 ''en-US'' = Inl (HTTPException 404 ''Event not found'') \<and>
   get_event_detail sample_db (ev_id deleted_event) ''en-US'' =
     Inl (HTTPException 404 ''Event not found'') \<and>
   get_event_detail sample_db (ev_id draft_event) ''en-US'' =
     Inl (HTTPException 404 ''Event not found'') \<and>
   get_event_detail sample_db (ev_id talk_event) ''en-US'' =
     transform_to_detail_view (selectinload talk_event) ''en-US'' \<and>
   (\<exists>v. get_event_detail sample_db (ev_id talk_event) ''en-US'' = Inr v)"
proof -
  have m: "deleted_event \<in> set sample_db" "draft_event \<in> set sample_db"
    "talk_event \<in> set sample_db"
    by (simp_all add: sample_db_def)
  have n: "99 \<notin> ev_id ` set sample_db" by (simp add: sample_defs)
  have d: "ev_deleted_at deleted_event \<noteq> None" by (simp add: deleted_event_def)
  have s: "ev_status draft_event \<noteq> PUBLISHED" by (simp add: sample_defs)
  have t: "ev_deleted_at talk_event = None" "ev_status talk_event = PUBLISHED"
    "\<forall>a\<in>set (ev_attachments talk_event). att_title a \<noteq> None"
    by (simp_all add: talk_event_def att_poster_def att_slides_def)
  from n get_event_detail_not_found_or_view [of sample_db 99 "''en-US''" talk_event]
  have 1: "get_event_detail sample_db 99 ''en-US'' = Inl (HTTPException 404 ''Event not found'')"
    by simp
  from sample_pk_unique m d
    get_event_detail_not_found_or_view [of sample_db 99 "''en-US''" deleted_event]
  have 2: "get_event_detail sample_db (ev_id deleted_event) ''en-US'' =
     Inl (HTTPException 404 ''Event not found'')"
    by simp
  from sample_pk_unique m s
    get_event_detail_not_found_or_view [of sample_db 99 "''en-US''" draft_event]
  have 3: "get_event_detail sample_db (ev_id draft_event) ''en-US'' =
     Inl (HTTPException 404 ''Event not found'')"
    by simp
  from sample_pk_unique m t
    get_event_detail_not_found_or_view [of sample_db 99 "''en-US''" talk_event]
  have 4: "\<exists>v. get_event_detail sample_db (ev_id talk_event) ''en-US'' = Inr v \<and>
     transform_to_detail_view (selectinload talk_event) ''en-US'' = Inr v"
    by simp
  from 4 have "get_event_detail sample_db (ev_id talk_event) ''en-US'' =
     transform_to_detail_view (selectinload talk_event) ''en-US''"
    and "\<exists>v. get_event_detail sample_db (ev_id talk_event) ''en-US'' = Inr v"
    by auto
  with sample_pk_unique m 1 2 3 show ?thesis by simp
qed

section \<open>Views of an event without translations\<close>

text \<open>
  C7, as stated, fails in its detail half: the row with id 12 of the sample table has no
  translations, yet the detail-view mapping yields no view at all, and so no absent
  content or location, because its attachment has no title.
\<close>

theorem no_translation_detail_counterexample:
  "ev_translations untitled_event = [] \<and>
   lv_title (transform_to_list_view untitled_event ''zh-TW'') = ''No Translation'' \<and>
   transform_to_detail_view untitled_event ''zh-TW'' = Inl ValidationError"
proof -
  have n: "ev_translations untitled_event = []"
    by (simp add: untitled_event_def)
  have m: "att_untitled \<in> set (ev_attachments untitled_event)"
    by (simp add: untitled_event_def)
  have "att_title att_untitled = None"
    by (simp add: att_untitled_def)
  with m have "\<exists>a\<in>set (ev_attachments untitled_event). att_title a = None"
    by blast
  then have d: "transform_to_detail_view untitled_event ''zh-TW'' = Inl ValidationError"
    by (rule transform_to_detail_view_fails)
  from n have "get_translation untitled_event ''zh-TW'' = None"
    by (rule get_translation_Nil)
  then have t: "lv_title (transform_to_list_view untitled_event ''zh-TW'') = ''No Translation''"
    by (simp add: transform_to_list_view_def Let_def)
  show ?thesis
    by (intro conjI) (fact n t d)+
qed

text \<open>
  C7, amended.  For every event with an empty translation list and every locale the
  list-view mapping yields the title "No Translation"; if moreover every attachment of
  the event has a title, the detail-view mapping yields a view whose content and
  location are both absent.  (No detail view of such an event, however produced, has a
  content or a location.)
\<close>

theorem no_translation_views:
  "ev_translations e = [] \<Longrightarrow>
     lv_title (transform_to_list_view e l) = ''No Translation'' \<and>
     (\<forall>v. transform_to_detail_view e l = Inr v \<longrightarrow>
        lv_title v = ''No Translation'' \<and> dv_content v = None \<and> dv_location v = None) \<and>
     ((\<forall>a\<in>set (ev_attachments e). att_title a \<noteq> None) \<longrightarrow>
        (\<exists>v. transform_to_detail_view e l = Inr v \<and> dv_content v = None \<and> dv_location v = None))"
proof -
  assume n: "ev_translations e = []"
  then have t: "get_translation e l = None" by (rule get_translation_Nil)
  then have title: "lv_title (transform_to_list_view e l) = ''No Translation''"
    by (simp add: transform_to_list_view_def Let_def)
  have part: "lv_title v = ''No Translation'' \<and> dv_content v = None \<and> dv_location v = None"
    if "transform_to_detail_view e l = Inr v" for v
    using transform_to_detail_view_Inr [OF that] t title by auto
  have "\<exists>v. transform_to_detail_view e l = Inr v \<and> dv_content v = None \<and> dv_location v = None"
    if "\<forall>a\<in>set (ev_attachments e). att_title a \<noteq> None"
    using transform_to_detail_view_returns [OF that, of l] part by blast
  with title part show ?thesis by blast
qed

theorem no_translation_views_witness:
  "ev_translations unscheduled_event = [] \<and>
   lv_title (transform_to_list_view unscheduled_event ''en-US'') = ''No Translation'' \<and>
   (\<exists>v. transform_to_detail_view unscheduled_event ''en-US'' = Inr v \<and>
        dv_content v = None \<and> dv_location v = None)"
proof -
  have n: "ev_translations unscheduled_event = []"
    by (simp add: unscheduled_event_def)
  have a: "\<forall>a\<in>set (ev_attachments unscheduled_event). att_title a \<noteq> None"
    by (simp add: unscheduled_event_def)
  from n a no_translation_views [OF n, of "''en-US''"] show ?thesis by simp
qed

section \<open>The detail view extends the list view\<close>

text \<open>
  C8.  A detail view of an event agrees with the list view of the same event and locale
  on id, slug, title, category, published_at and organizer_info: cut down to the fields
  of the list view it is the list view, and it adds only the resolved content, the
  resolved location and the attachment list.  The slug of both views is the category
  slug, a hyphen and the event id in decimal.
\<close>

theorem detail_view_extends_list_view:
  "(\<forall>v. transform_to_detail_view e l = Inr v \<longrightarrow>
      lv_id v = lv_id (transform_to_list_view e l) \<and>
      lv_slug v = lv_slug (transform_to_list_view e l) \<and>
      lv_title v = lv_title (transform_to_list_view e l) \<and>
      lv_category v = lv_category (transform_to_list_view e l) \<and>
      lv_published_at v = lv_published_at (transform_to_list_view e l) \<and>
      lv_organizer_info v = lv_organizer_info (transform_to_list_view e l) \<and>
      event_list_view.truncate v = transform_to_list_view e l \<and>
      lv_slug v = cat_slug (ev_category e) @ ''-'' @ str_int (ev_id e) \<and>
      dv_content v = (case get_translation e l of None \<Rightarrow> None | Some t \<Rightarrow> tr_content t) \<and>
      dv_location v = (case get_translation e l of None \<Rightarrow> None | Some t \<Rightarrow> tr_location t)) \<and>
   lv_slug (transform_to_list_view e l) = cat_slug (ev_category e) @ ''-'' @ str_int (ev_id e) \<and>
   lv_id (transform_to_list_view e l) = ev_id e \<and>
   ((\<forall>a\<in>set (ev_attachments e). att_title a \<noteq> None) \<longrightarrow>
      (\<exists>v. transform_to_detail_view e l = Inr v))"
proof (intro conjI allI impI)
  fix v
  assume v: "transform_to_detail_view e l = Inr v"
  from transform_to_detail_view_Inr [OF v] obtain dtos where
    eq: "v = \<lparr>lv_id = lv_id (transform_to_list_view e l),
          lv_slug = lv_slug (transform_to_list_view e l),
          lv_title = lv_title (transform_to_list_view e l),
          lv_category = lv_category (transform_to_list_view e l),
          lv_published_at = lv_published_at (transform_to_list_view e l),
          lv_organizer_info = lv_organizer_info (transform_to_list_view e l),
          dv_content = (case get_translation e l of None \<Rightarrow> None | Some t \<Rightarrow> tr_content t),
          dv_location = (case get_translation e l of None \<Rightarrow> None | Some t \<Rightarrow> tr_location t),
          dv_attachments = dtos\<rparr>"
    by blast
  show "lv_id v = lv_id (transform_to_list_view e l)"
    and "lv_slug v = lv_slug (transform_to_list_view e l)"
    and "lv_title v = lv_title (transform_to_list_view e l)"
    and "lv_category v = lv_category (transform_to_list_view e l)"
    and "lv_published_at v = lv_published_at (transform_to_list_view e l)"
    and "lv_organizer_info v = lv_organizer_info (transform_to_list_view e l)"
    and "dv_content v = (case get_translation e l of None \<Rightarrow> None | Some t \<Rightarrow> tr_content t)"
    and "dv_location v = (case get_translation e l of None \<Rightarrow> None | Some t \<Rightarrow> tr_location t)"
    by (simp_all add: eq)
  show "event_list_view.truncate v = transform_to_list_view e l"
    by (simp add: eq event_list_view.defs)
  show "lv_slug v = cat_slug (ev_category e) @ ''-'' @ str_int (ev_id e)"
    by (simp add: eq transform_to_list_view_def Let_def)
next
  show "lv_slug (transform_to_list_view e l) = cat_slug (ev_category e) @ ''-'' @ str_int (ev_id e)"
    by (simp add: transform_to_list_view_def Let_def)
next
  show "lv_id (transform_to_list_view e l) = ev_id e"
    by (simp add: transform_to_list_view_def Let_def)
next
  assume "\<forall>a\<in>set (ev_attachments e). att_title a \<noteq> None"
  then show "\<exists>v. transform_to_detail_view e l = Inr v"
    by (rule transform_to_detail_view_returns)
qed

theorem detail_view_extends_list_view_witness:
  "lv_slug (transform_to_list_view talk_event ''en-US'') = ''speech-7'' \<and>
   (\<exists>v. transform_to_detail_view talk_event ''en-US'' = Inr v \<and>
        event_list_view.truncate v = transform_to_list_view talk_event ''en-US'' \<and>
        lv_slug v = ''speech-7'' \<and> lv_title v = ''Open talk'' \<and>
        dv_content v = Some ''Welcome'' \<and> dv_location v = Some ''Taipei'')"
proof -
  have a: "\<forall>a\<in>set (ev_attachments talk_event). att_title a \<noteq> None"
    by (simp add: talk_event_def att_poster_def att_slides_def)
  have s: "cat_slug (ev_category talk_event) @ ''-'' @ str_int (ev_id talk_event) = ''speech-7''"
    by (simp add: talk_event_def cat_speech_def str_int_def str_nat.simps digit_char_def)
  have t: "get_translation talk_event ''en-US'' = Some tr_en"
    by (simp add: get_translation_def talk_event_def tr_en_def tr_fr_def)
  have c: "tr_content tr_en = Some ''Welcome''" "tr_location tr_en = Some ''Taipei''"
    "tr_title tr_en = ''Open talk''"
    by (simp_all add: tr_en_def)
  have ti: "lv_title (transform_to_list_view talk_event ''en-US'') = ''Open talk''"
    by (simp add: transform_to_list_view_def Let_def t c)
  note inst = detail_view_extends_list_view [of talk_event "''en-US''"]
  from inst a obtain v where v: "transform_to_detail_view talk_event ''en-US'' = Inr v"
    by blast
  with inst s t c ti have
    "event_list_view.truncate v = transform_to_list_view talk_event ''en-US''"
    "lv_slug v = ''speech-7''" "lv_title v = ''Open talk''"
    "dv_content v = Some ''Welcome''" "dv_location v = Some ''Taipei''"
    by simp_all
  moreover from inst s have "lv_slug (transform_to_list_view talk_event ''en-US'') = ''speech-7''"
    by simp
  ultimately show ?thesis using v by blast
qed

section \<open>Attachments of the detail view\<close>



section \<open>Attachments without a title\<close>

text \<open>
  C10.  The display form of an attachment needs a title, and a stored attachment may
  have none: when some attachment of an event has a null title the detail-view mapping
  fails with a validation error, and it produces a detail view exactly when every
  attachment of the event has a title.
\<close>

theorem null_title_blocks_detail_view:
  "AttachmentPublic ty None p = Inl ValidationError \<and>
   ((\<exists>a\<in>set (ev_attachments e). att_title a = None) \<longrightarrow>
      transform_to_detail_view e l = Inl ValidationError) \<and>
   ((\<exists>v. transform_to_detail_view e l = Inr v) \<longleftrightarrow>
      (\<forall>a\<in>set (ev_attachments e). att_title a \<noteq> None))"
proof (intro conjI impI iffI)
  show "AttachmentPublic ty None p = Inl ValidationError"
    by (simp add: AttachmentPublic_def)
next
  assume "\<exists>a\<in>set (ev_attachments e). att_title a = None"
  then show "transform_to_detail_view e l = Inl ValidationError"
    by (rule transform_to_detail_view_fails)
next
  assume r: "\<exists>v. transform_to_detail_view e l = Inr v"
  show "\<forall>a\<in>set (ev_attachments e). att_title a \<noteq> None"
  proof (rule ccontr)
    assume "\<not> (\<forall>a\<in>set (ev_attachments e). att_title a \<noteq> None)"
    then have "\<exists>a\<in>set (ev_attachments e). att_title a = None" by simp
    then have "transform_to_detail_view e l = Inl ValidationError"
      by (rule transform_to_detail_view_fails)
    with r show False by simp
  qed
next
  assume "\<forall>a\<in>set (ev_attachments e). att_title a \<noteq> None"
  then show "\<exists>v. transform_to_detail_view e l = Inr v"
    by (rule transform_to_detail_view_returns)
qed

theorem null_title_blocks_detail_view_witness:
  "att_untitled \<in> set (ev_attachments untitled_event) \<and>
   att_title att_untitled = None \<and>
   transform_to_detail_view untitled_event ''zh-TW'' = Inl ValidationError \<and>
   (\<exists>v. transform_to_detail_view forum_event ''zh-TW'' = Inr v)"
proof -
  have m: "att_untitled \<in> set (ev_attachments untitled_event)"
    by (simp add: untitled_event_def)
  have n: "att_title att_untitled = None"
    by (simp add: att_untitled_def)
  from m n have x: "\<exists>a\<in>set (ev_attachments untitled_event). att_title a = None"
    by blast
  have f: "\<forall>a\<in>set (ev_attachments forum_event). att_title a \<noteq> None"
    by (simp add: forum_event_def)
  from x null_title_blocks_detail_view [of "''link''" "''x''" untitled_event "''zh-TW''"]
  have "transform_to_detail_view untitled_event ''zh-TW'' = Inl ValidationError"
    by blast
  moreover from f null_title_blocks_detail_view [of "''link''" "''x''" forum_event "''zh-TW''"]
  have "\<exists>v. transform_to_detail_view forum_event ''zh-TW'' = Inr v"
    by blast
  ultimately show ?thesis using m n by blast
qed

end
